theory Spec2Isabelle
  imports Main
begin

section \<open>Request statistics of the usage-reporting plugin\<close>

text \<open>
  A shallow embedding of
  \<^verbatim>\<open>packages/apollo-server-core/src/plugin/usageReporting/addTraceRequestStats.ts\<close>.
  The four functions of the file are embedded under their own names:
  \<^verbatim>\<open>addTraceRequestStats\<close>, \<^verbatim>\<open>addTraceInputValueStats\<close>,
  \<^verbatim>\<open>inputFieldIsInRequest\<close> and \<^verbatim>\<open>enumValueIsInRequest\<close>.
  In-place mutation of the trace is explicit state passing; a \<^verbatim>\<open>throw\<close> is the
  left injection of a sum and carries the trace as it was when the error was thrown, so
  that the writes made before the error stay visible to the catch block.
\<close>

subsection \<open>Runtime values\<close>

text \<open>
  Variable values are of type \<^verbatim>\<open>any\<close>. The model has the values of JSON and
  \<^verbatim>\<open>undefined\<close>: finite trees, so no cyclic object. The walker never inspects a
  number beyond the \<^verbatim>\<open>length\<close> test of an array-like object, where a
  non-integral or non-finite number behaves as a negative one does; numbers are integers
  here. An object is the list of its own enumerable properties. \<open>JFun\<close> is a
  function, which a property read finds where the name is that of a method inherited
  from \<^verbatim>\<open>Object.prototype\<close> or \<^verbatim>\<open>Array.prototype\<close>; the walker never calls it.
\<close>

datatype jsvalue =
    JNull
  | JUndefined
  | JBool bool
  | JNum int
  | JStr string
  | JList "jsvalue list"
  | JObj "(string \<times> jsvalue) list"
  | JFun

text \<open>The result of the \<^verbatim>\<open>typeof\<close> operator.\<close>

fun typeof :: "jsvalue \<Rightarrow> string" where
  "typeof JNull = ''object''"
| "typeof JUndefined = ''undefined''"
| "typeof (JBool b) = ''boolean''"
| "typeof (JNum n) = ''number''"
| "typeof (JStr s) = ''string''"
| "typeof (JList xs) = ''object''"
| "typeof (JObj kvs) = ''object''"
| "typeof JFun = ''function''"

text \<open>The canonical decimal rendering of an array index, the property key of an element.\<close>

fun decimal :: "nat \<Rightarrow> string" where
  "decimal n =
     (if n < 10 then [''0123456789'' ! n]
      else decimal (n div 10) @ [''0123456789'' ! (n mod 10)])"

declare decimal.simps [simp del]

text \<open>
  The own enumerable properties of a value, as \<^verbatim>\<open>Object.keys\<close> lists them: the
  properties of an object, the indices of an array.
\<close>

fun own_properties :: "jsvalue \<Rightarrow> (string \<times> jsvalue) list" where
  "own_properties (JObj kvs) = kvs"
| "own_properties (JList xs) = zip (map decimal [0..<length xs]) xs"
| "own_properties _ = []"

definition object_keys :: "jsvalue \<Rightarrow> string list" where
  "object_keys v = map fst (own_properties v)"

text \<open>
  The methods that every object inherits from \<^verbatim>\<open>Object.prototype\<close>, and those that
  an array inherits from \<^verbatim>\<open>Array.prototype\<close> in addition (ECMAScript 2020). The
  accessor \<^verbatim>\<open>__proto__\<close> is left out: GraphQL reserves the names that begin with two
  underscores, so no input-object type of a valid schema declares such a field.
\<close>

definition object_prototype_methods :: "string list" where
  "object_prototype_methods =
     [''constructor'', ''hasOwnProperty'', ''isPrototypeOf'', ''propertyIsEnumerable'',
      ''toLocaleString'', ''toString'', ''valueOf'', ''__defineGetter__'',
      ''__defineSetter__'', ''__lookupGetter__'', ''__lookupSetter__'']"

definition array_prototype_methods :: "string list" where
  "array_prototype_methods =
     [''concat'', ''copyWithin'', ''entries'', ''every'', ''fill'', ''filter'', ''find'',
      ''findIndex'', ''flat'', ''flatMap'', ''forEach'', ''includes'', ''indexOf'', ''join'',
      ''keys'', ''lastIndexOf'', ''map'', ''pop'', ''push'', ''reduce'', ''reduceRight'',
      ''reverse'', ''shift'', ''slice'', ''some'', ''sort'', ''splice'', ''unshift'',
      ''values'']"

declare object_prototype_methods_def [simp] array_prototype_methods_def [simp]

text \<open>
  The property read \<^verbatim>\<open>inputValue[name]\<close> on a value whose \<^verbatim>\<open>typeof\<close> is
  \<^verbatim>\<open>'object'\<close>: an own property first (an array also answers to \<^verbatim>\<open>length\<close>),
  then the prototype chain, and \<^verbatim>\<open>undefined\<close> when neither has the name. The
  walker performs the read only on such values.
\<close>

definition get_property :: "jsvalue \<Rightarrow> string \<Rightarrow> jsvalue" where
  "get_property v k =
     (case v of
        JList xs \<Rightarrow>
          (if k = ''length'' then JNum (int (length xs))
           else (case map_of (own_properties v) k of
                   Some x \<Rightarrow> x
                 | None \<Rightarrow>
                     if k \<in> set array_prototype_methods \<or> k \<in> set object_prototype_methods
                     then JFun else JUndefined))
      | JObj kvs \<Rightarrow>
          (case map_of (own_properties v) k of
             Some x \<Rightarrow> x
           | None \<Rightarrow> if k \<in> set object_prototype_methods then JFun else JUndefined)
      | _ \<Rightarrow> JUndefined)"

text \<open>
  Modelled from the spec: \<^verbatim>\<open>isCollection\<close> and \<^verbatim>\<open>forEach\<close> belong to the
  \<^verbatim>\<open>iterall\<close> package, which is not part of the source. The spec has a list-like
  collection whose elements are visited one by one, and a value that is not a collection.
  In the package a collection is an object that is array-like (a \<^verbatim>\<open>length\<close> that is
  a non-negative integer) or iterable: among the values of the model an array, and a
  plain object with such a \<^verbatim>\<open>length\<close>, and a function, whose \<^verbatim>\<open>length\<close> is
  the number of its parameters. A primitive, a string included, is not a collection.
  \<^verbatim>\<open>forEach\<close> visits the elements of an array in order, and of an array-like
  object the own properties at the indices below its length: a function has none. (An
  object that carries a function of its own under the name \<^verbatim>\<open>forEach\<close> would have
  that function called instead; the model has no call of a function.)
  \<open>collection_items\<close> is \<open>None\<close> where \<^verbatim>\<open>isCollection\<close> is false, and the
  visited elements otherwise.
\<close>

definition collection_items :: "jsvalue \<Rightarrow> jsvalue list option" where
  "collection_items v =
     (case v of
        JList xs \<Rightarrow> Some xs
      | JObj kvs \<Rightarrow>
          (case get_property v ''length'' of
             JNum n \<Rightarrow>
               (if 0 \<le> n
                then Some (List.map_filter (\<lambda>i. map_of kvs (decimal i)) [0..<nat n])
                else None)
           | _ \<Rightarrow> None)
      | JFun \<Rightarrow> Some []
      | _ \<Rightarrow> None)"


subsection \<open>Input types and the schema\<close>

text \<open>
  A type reference is a named type under list and non-null wrappers; these are the
  three kinds of type annotation of a variable definition, and the wrappers are what
  \<^verbatim>\<open>isNonNullType\<close>, \<^verbatim>\<open>isListType\<close> and \<^verbatim>\<open>ofType\<close> see. A named type is
  looked up in the schema, so an input-object type may refer to itself through its fields.
\<close>

datatype gtype =
    NamedType string
  | ListType gtype
  | NonNullType gtype

text \<open>
  Modelled from the spec: \<^verbatim>\<open>toString\<close> of a type object of the \<^verbatim>\<open>graphql\<close>
  package, the canonical signature of the type, as in \<^verbatim>\<open>String\<close>,
  \<^verbatim>\<open>[String!]\<close> and \<^verbatim>\<open>Int!\<close>.
\<close>

fun type_toString :: "gtype \<Rightarrow> string" where
  "type_toString (NamedType n) = n"
| "type_toString (ListType t) = ''['' @ type_toString t @ '']''"
| "type_toString (NonNullType t) = type_toString t @ ''!''"

fun isNonNullType :: "gtype \<Rightarrow> bool" where
  "isNonNullType (NonNullType t) = True"
| "isNonNullType _ = False"

text \<open>
  A declared field of an input-object type. \<open>defaultValue\<close> is \<open>JUndefined\<close> when
  the field declares no default, as the source tests it.
\<close>

record InputField =
  field_name :: string
  field_type :: gtype
  defaultValue :: jsvalue

text \<open>The three outcomes of a scalar's \<^verbatim>\<open>parseValue\<close>.\<close>

datatype parse_outcome = ParseThrows | ParseUndefined | ParseValue

datatype named_type =
    InputObjectType "InputField list"
  | ScalarType "jsvalue \<Rightarrow> parse_outcome"
  | EnumType "string list"
  | OutputType

type_synonym schema = "string \<Rightarrow> named_type option"

text \<open>
  Modelled from the spec: \<^verbatim>\<open>typeFromAST\<close> and \<^verbatim>\<open>isInputType\<close> of the
  \<^verbatim>\<open>graphql\<close> package. A type annotation resolves when the named type under its
  wrappers is in the schema, and the type is an input type when that named type is an
  input object, a scalar or an enum.
\<close>

fun typeFromAST :: "schema \<Rightarrow> gtype \<Rightarrow> gtype option" where
  "typeFromAST S (NamedType n) = (case S n of None \<Rightarrow> None | Some d \<Rightarrow> Some (NamedType n))"
| "typeFromAST S (ListType t) = (case typeFromAST S t of None \<Rightarrow> None | Some t' \<Rightarrow> Some (ListType t'))"
| "typeFromAST S (NonNullType t) = (case typeFromAST S t of None \<Rightarrow> None | Some t' \<Rightarrow> Some (NonNullType t'))"

fun isInputType :: "schema \<Rightarrow> gtype \<Rightarrow> bool" where
  "isInputType S (NamedType n) =
     (case S n of
        Some (InputObjectType fs) \<Rightarrow> True
      | Some (ScalarType p) \<Rightarrow> True
      | Some (EnumType vs) \<Rightarrow> True
      | _ \<Rightarrow> False)"
| "isInputType S (ListType t) = isInputType S t"
| "isInputType S (NonNullType t) = isInputType S t"

subsection \<open>The trace\<close>

record InputFieldStat =
  fieldType :: string
  requestCount :: nat
  requestCountNull :: nat

record InputTypeStat =
  perInputFieldStat :: "string \<rightharpoonup> InputFieldStat"

record EnumValueStat =
  enumRequestCount :: nat

record EnumTypeStat =
  perEnumValueStat :: "string \<rightharpoonup> EnumValueStat"

record Trace =
  perInputTypeStat :: "string \<rightharpoonup> InputTypeStat"
  perEnumTypeStat :: "string \<rightharpoonup> EnumTypeStat"

text \<open>
  A trace has many fields besides the two mappings. The functions below take a trace
  with any further fields, the extension of the record, and no function of the source
  reads or writes them.
\<close>

text \<open>
  The \<^verbatim>\<open>requestCount\<close> of an \<^verbatim>\<open>EnumValueStat\<close> is \<open>enumRequestCount\<close> here,
  apart from the field of the same name of an \<^verbatim>\<open>InputFieldStat\<close>.
  The objects that \<^verbatim>\<open>new InputTypeStat()\<close>, \<^verbatim>\<open>new InputFieldStat()\<close>,
  \<^verbatim>\<open>new EnumTypeStat()\<close> and \<^verbatim>\<open>new EnumValueStat()\<close> create: empty mappings, an
  empty string and zero counts. A \<^verbatim>\<open>perInputFieldStat\<close> that is null is the empty
  mapping here, which is what the \<^verbatim>\<open>??\<close> fallback of the source installs.
\<close>

definition new_InputTypeStat :: InputTypeStat where
  "new_InputTypeStat = \<lparr>perInputFieldStat = Map.empty\<rparr>"

definition new_InputFieldStat :: InputFieldStat where
  "new_InputFieldStat = \<lparr>fieldType = [], requestCount = 0, requestCountNull = 0\<rparr>"

definition new_EnumTypeStat :: EnumTypeStat where
  "new_EnumTypeStat = \<lparr>perEnumValueStat = Map.empty\<rparr>"

definition new_EnumValueStat :: EnumValueStat where
  "new_EnumValueStat = \<lparr>enumRequestCount = 0\<rparr>"

definition inputFieldIsInRequest ::
  "'a Trace_scheme \<Rightarrow> string \<Rightarrow> string \<Rightarrow> string \<Rightarrow> bool \<Rightarrow> 'a Trace_scheme" where
  "inputFieldIsInRequest trace inputObjectTypeName inputFieldName inputFieldTypeName isNull =
     (let inputTypeStat =
            (case perInputTypeStat trace inputObjectTypeName of
               Some s \<Rightarrow> s
             | None \<Rightarrow> new_InputTypeStat);
          inputFieldStat =
            (case perInputFieldStat inputTypeStat inputFieldName of
               Some s \<Rightarrow> s
             | None \<Rightarrow> new_InputFieldStat);
          inputFieldStat1 = inputFieldStat\<lparr>fieldType := inputFieldTypeName, requestCount := 1\<rparr>;
          inputFieldStat2 =
            (if isNull then inputFieldStat1\<lparr>requestCountNull := 1\<rparr> else inputFieldStat1)
      in trace\<lparr>perInputTypeStat :=
           (perInputTypeStat trace)(inputObjectTypeName \<mapsto>
              inputTypeStat\<lparr>perInputFieldStat :=
                (perInputFieldStat inputTypeStat)(inputFieldName \<mapsto> inputFieldStat2)\<rparr>)\<rparr>)"

definition enumValueIsInRequest :: "'a Trace_scheme \<Rightarrow> string \<Rightarrow> string \<Rightarrow> 'a Trace_scheme" where
  "enumValueIsInRequest trace enumTypeName enumValueName =
     (let enumTypeStat =
            (case perEnumTypeStat trace enumTypeName of
               Some s \<Rightarrow> s
             | None \<Rightarrow> new_EnumTypeStat);
          enumValueStat =
            (case perEnumValueStat enumTypeStat enumValueName of
               Some s \<Rightarrow> s
             | None \<Rightarrow> new_EnumValueStat)
      in trace\<lparr>perEnumTypeStat :=
           (perEnumTypeStat trace)(enumTypeName \<mapsto>
              enumTypeStat\<lparr>perEnumValueStat :=
                (perEnumValueStat enumTypeStat)(enumValueName \<mapsto>
                   enumValueStat\<lparr>enumRequestCount := 1\<rparr>)\<rparr>)\<rparr>)"

text \<open>Reading one entry of the summary.\<close>

definition input_field_stat :: "'a Trace_scheme \<Rightarrow> string \<Rightarrow> string \<Rightarrow> InputFieldStat option" where
  "input_field_stat trace tn fn =
     (case perInputTypeStat trace tn of
        None \<Rightarrow> None
      | Some s \<Rightarrow> perInputFieldStat s fn)"

definition enum_value_stat :: "'a Trace_scheme \<Rightarrow> string \<Rightarrow> string \<Rightarrow> EnumValueStat option" where
  "enum_value_stat trace tn vn =
     (case perEnumTypeStat trace tn of
        None \<Rightarrow> None
      | Some s \<Rightarrow> perEnumValueStat s vn)"

subsection \<open>Errors\<close>

text \<open>
  One constructor for each \<^verbatim>\<open>throw\<close> of the source, in the order of the source:
  \<^item> \<open>UnresolvableVariableType\<close>: \<^verbatim>\<open>Variable type must be input type.\<close>
  \<^item> \<open>MissingRequiredVariable\<close>: \<^verbatim>\<open>Non-null variable with no default must have value provided.\<close>
  \<^item> \<open>NullForNonNullVariable\<close>: \<^verbatim>\<open>Non-null variable cannot be provided null value.\<close>
  \<^item> \<open>NullForNonNull\<close>: \<^verbatim>\<open>Non-null type cannot be provided null value.\<close>
  \<^item> \<open>NotAnObject\<close>: \<^verbatim>\<open>Input object type must be provided object value.\<close>
  \<^item> \<open>MissingRequiredField\<close>: \<^verbatim>\<open>Non-null input field with no default must have value provided.\<close>
  \<^item> \<open>UnknownField\<close>: \<^verbatim>\<open>Input object type does not have provided field name.\<close>
  \<^item> \<open>ScalarParseError\<close>: \<^verbatim>\<open>Scalar type threw while parsing provided value.\<close>
  \<^item> \<open>ScalarParseUndefined\<close>: \<^verbatim>\<open>Scalar type returned undefined when parsing provided value.\<close>
  \<^item> \<open>NotAnEnumMember\<close>: \<^verbatim>\<open>Enum type does not have provided enum value.\<close>
  \<^item> \<open>UnexpectedInputType\<close>: \<^verbatim>\<open>Unexpected input type.\<close>
  \<^item> \<open>TraversalError\<close>: an error thrown by the document traversal of the
    \<^verbatim>\<open>graphql\<close> package.
\<close>

datatype error =
    UnresolvableVariableType
  | MissingRequiredVariable
  | NullForNonNullVariable
  | NullForNonNull
  | NotAnObject
  | MissingRequiredField
  | UnknownField
  | ScalarParseError
  | ScalarParseUndefined
  | NotAnEnumMember
  | UnexpectedInputType
  | TraversalError

type_synonym 'a outcome = "(error \<times> 'a Trace_scheme) + 'a Trace_scheme"

text \<open>The trace an outcome carries, thrown or returned.\<close>

definition final_trace :: "'a outcome \<Rightarrow> 'a Trace_scheme" where
  "final_trace r = (case r of Inl (e, t) \<Rightarrow> t | Inr t \<Rightarrow> t)"

subsection \<open>The type walker\<close>

text \<open>
  The nesting depth of a value; the walker descends along it. A function lies below
  every object, which may hand it out, and above nothing.
\<close>

fun list_max :: "nat list \<Rightarrow> nat" where
  "list_max [] = 0"
| "list_max (n # ns) = max n (list_max ns)"

primrec depth :: "jsvalue \<Rightarrow> nat" where
  "depth JNull = 0"
| "depth JUndefined = 0"
| "depth (JBool b) = 0"
| "depth (JNum n) = 0"
| "depth (JStr s) = 0"
| "depth (JList xs) = Suc (Suc (list_max (map depth xs)))"
| "depth (JObj kvs) = Suc (Suc (list_max (map snd (map (map_prod id depth) kvs))))"
| "depth JFun = Suc 0"

lemma list_max_ge: "n \<in> set ns \<Longrightarrow> n \<le> list_max ns"
  by (induction ns) auto

lemma list_max_less: "(\<And>n. n \<in> set ns \<Longrightarrow> n < d) \<Longrightarrow> 0 < d \<Longrightarrow> list_max ns < d"
  by (induction ns) auto

lemma depth_JList_elem: "x \<in> set xs \<Longrightarrow> depth x < depth (JList xs)"
  using list_max_ge [of "depth x" "map depth xs"] by simp

lemma depth_JObj_elem: "(k, x) \<in> set kvs \<Longrightarrow> depth x < depth (JObj kvs)"
  using list_max_ge [of "depth x" "map snd (map (map_prod id depth) kvs)"]
  by (force simp: less_Suc_eq_le)

lemma depth_own_properties: "(k, x) \<in> set (own_properties v) \<Longrightarrow> depth x < depth v"
proof (cases v)
  case (JList xs)
  assume "(k, x) \<in> set (own_properties v)"
  with JList have "x \<in> set xs" by (auto dest: set_zip_rightD)
  with JList show ?thesis by (simp only: depth_JList_elem)
next
  case (JObj kvs)
  assume "(k, x) \<in> set (own_properties v)"
  with JObj have "(k, x) \<in> set kvs" by simp
  with JObj show ?thesis by (simp only: depth_JObj_elem)
qed auto

lemma depth_get_property:
  "get_property v k \<noteq> JUndefined \<Longrightarrow> depth (get_property v k) < depth v"
proof -
  assume u: "get_property v k \<noteq> JUndefined"
  show ?thesis
  proof (cases "map_of (own_properties v) k")
    case None
    from u have "(\<exists>xs. v = JList xs) \<or> (\<exists>kvs. v = JObj kvs)"
      by (cases v) (simp_all add: get_property_def)
    moreover from None have "depth (get_property v k) \<le> Suc 0"
      by (cases v) (simp_all add: get_property_def del: own_properties.simps)
    ultimately show ?thesis by auto
  next
    case (Some x)
    then have "(k, x) \<in> set (own_properties v)" by (rule map_of_SomeD)
    then have lt: "depth x < depth v" by (rule depth_own_properties)
    show ?thesis
    proof (cases "\<exists>xs. v = JList xs \<and> k = ''length''")
      case True
      then show ?thesis by (auto simp: get_property_def)
    next
      case False
      with Some have "get_property v k = x"
        by (cases v) (auto simp: get_property_def)
      with lt show ?thesis by simp
    qed
  qed
qed

lemma depth_collection_items:
  "collection_items v = Some items \<Longrightarrow> x \<in> set items \<Longrightarrow> depth x < depth v"
proof (cases v)
  case (JList xs)
  assume "collection_items v = Some items" "x \<in> set items"
  with JList have "x \<in> set xs" by (simp add: collection_items_def)
  with JList show ?thesis by (simp only: depth_JList_elem)
next
  case (JObj kvs)
  assume "collection_items v = Some items" "x \<in> set items"
  with JObj obtain i where "map_of kvs (decimal i) = Some x"
    by (auto simp: collection_items_def List.map_filter_def
        split: jsvalue.splits if_splits)
  then have "(decimal i, x) \<in> set kvs" by (rule map_of_SomeD)
  with JObj show ?thesis by (simp only: depth_JObj_elem)
qed (simp_all add: collection_items_def)

lemma depth_collection_pos: "collection_items v = Some items \<Longrightarrow> 0 < depth v"
  by (cases v) (auto simp: collection_items_def)

lemma depth_collection:
  "collection_items v = Some items \<Longrightarrow> Suc (list_max (map depth items)) \<le> depth v"
proof -
  assume c: "collection_items v = Some items"
  have "list_max (map depth items) < depth v"
    using c by (intro list_max_less) (auto dest: depth_collection_items depth_collection_pos)
  then show ?thesis by simp
qed

text \<open>
  The measure of the walker: every call descends into the value, or keeps the value and
  peels a wrapper off the type, or moves on in a loop.
\<close>

definition walk_measure ::
  "(schema \<times> 'a Trace_scheme \<times> jsvalue \<times> gtype) + (schema \<times> 'a Trace_scheme \<times> jsvalue list \<times> gtype)
     + (schema \<times> 'a Trace_scheme \<times> string \<times> jsvalue \<times> InputField list) \<Rightarrow> nat \<times> nat \<times> nat" where
  "walk_measure a =
     (case a of
        Inl (S, trace, v, t) \<Rightarrow> (depth v, 1, size t)
      | Inr (Inl (S, trace, xs, t)) \<Rightarrow> (Suc (list_max (map depth xs)), 0, length xs)
      | Inr (Inr (S, trace, name, v, fs)) \<Rightarrow> (depth v, 0, length fs))"

text \<open>
  \<^verbatim>\<open>addTraceInputValueStats\<close>, with its two loops as functions of their own:
  \<open>walk_items\<close> is the \<^verbatim>\<open>forEach\<close> over the elements of a collection, and
  \<open>walk_fields\<close> the \<^verbatim>\<open>for\<close> loop over \<^verbatim>\<open>Object.values(inputFields)\<close>, the
  declared fields in declaration order. The check of the provided keys against the
  declared fields follows the loop. The order of the cases is the order of the source:
  the non-null wrapper, the null value, the list wrapper, then the named type by its kind
  (input object, scalar, enum), and the branch the source marks unreachable.
\<close>

function (sequential) addTraceInputValueStats :: "schema \<Rightarrow> 'a Trace_scheme \<Rightarrow> jsvalue \<Rightarrow> gtype \<Rightarrow> 'a outcome"
  and walk_items :: "schema \<Rightarrow> 'a Trace_scheme \<Rightarrow> jsvalue list \<Rightarrow> gtype \<Rightarrow> 'a outcome"
  and walk_fields :: "schema \<Rightarrow> 'a Trace_scheme \<Rightarrow> string \<Rightarrow> jsvalue \<Rightarrow> InputField list \<Rightarrow> 'a outcome"
where
  "addTraceInputValueStats S trace inputValue (NonNullType ofType) =
     (if inputValue \<noteq> JNull then addTraceInputValueStats S trace inputValue ofType
      else Inl (NullForNonNull, trace))"
| "addTraceInputValueStats S trace inputValue (ListType itemType) =
     (if inputValue = JNull then Inr trace
      else (case collection_items inputValue of
              Some items \<Rightarrow> walk_items S trace items itemType
            | None \<Rightarrow> addTraceInputValueStats S trace inputValue itemType))"
| "addTraceInputValueStats S trace inputValue (NamedType name) =
     (if inputValue = JNull then Inr trace
      else (case S name of
              Some (InputObjectType inputFields) \<Rightarrow>
                (if typeof inputValue \<noteq> ''object'' then Inl (NotAnObject, trace)
                 else (case walk_fields S trace name inputValue inputFields of
                         Inl e \<Rightarrow> Inl e
                       | Inr trace' \<Rightarrow>
                           (if list_all (\<lambda>fieldName. fieldName \<in> set (map field_name inputFields))
                                 (object_keys inputValue)
                            then Inr trace'
                            else Inl (UnknownField, trace'))))
            | Some (ScalarType parseValue) \<Rightarrow>
                (case parseValue inputValue of
                   ParseThrows \<Rightarrow> Inl (ScalarParseError, trace)
                 | ParseUndefined \<Rightarrow> Inl (ScalarParseUndefined, trace)
                 | ParseValue \<Rightarrow> Inr trace)
            | Some (EnumType enumValues) \<Rightarrow>
                (case inputValue of
                   JStr s \<Rightarrow>
                     (if s \<in> set enumValues then Inr (enumValueIsInRequest trace name s)
                      else Inl (NotAnEnumMember, trace))
                 | _ \<Rightarrow> Inl (NotAnEnumMember, trace))
            | _ \<Rightarrow> Inl (UnexpectedInputType, trace)))"
| "walk_items S trace [] itemType = Inr trace"
| "walk_items S trace (itemValue # rest) itemType =
     (case addTraceInputValueStats S trace itemValue itemType of
        Inl e \<Rightarrow> Inl e
      | Inr trace' \<Rightarrow> walk_items S trace' rest itemType)"
| "walk_fields S trace name inputValue [] = Inr trace"
| "walk_fields S trace name inputValue (inputField # rest) =
     (let inputFieldValue = get_property inputValue (field_name inputField) in
      if inputFieldValue = JUndefined then
        (if defaultValue inputField = JUndefined \<and> isNonNullType (field_type inputField)
         then Inl (MissingRequiredField, trace)
         else walk_fields S trace name inputValue rest)
      else
        (case addTraceInputValueStats S
                (inputFieldIsInRequest trace name (field_name inputField)
                   (type_toString (field_type inputField)) (inputFieldValue = JNull))
                inputFieldValue (field_type inputField) of
           Inl e \<Rightarrow> Inl e
         | Inr trace' \<Rightarrow> walk_fields S trace' name inputValue rest))"
  by pat_completeness auto

termination
proof (relation "inv_image (less_than <*lex*> less_than <*lex*> less_than) walk_measure")
qed (auto simp: walk_measure_def dest: depth_collection intro: depth_get_property)

subsection \<open>The variables of the operation\<close>

text \<open>
  Of a value node of the document the source reads the kind, and the name of a variable
  reference; the other kinds are one constructor here.
\<close>

datatype value_node = NullValue | Variable string | OtherValue

record VariableDefinition =
  variable_name :: string
  variable_type :: gtype
  variable_defaultValue :: "value_node option"

type_synonym VariableValues = "(string \<times> jsvalue) list"

text \<open>
  One turn of the loop over \<^verbatim>\<open>operation.variableDefinitions\<close>, on the set of null
  variable names and the trace. The three branches of the \<^verbatim>\<open>switch\<close> make the same
  call of \<^verbatim>\<open>typeFromAST\<close>.
\<close>

definition classify_variable ::
  "schema \<Rightarrow> VariableValues option \<Rightarrow> VariableDefinition \<Rightarrow> string set \<times> 'a Trace_scheme \<Rightarrow>
     (error \<times> 'a Trace_scheme) + (string set \<times> 'a Trace_scheme)" where
  "classify_variable S variables varDefinition st =
     (let nullVariableNames = fst st;
          trace = snd st;
          varName = variable_name varDefinition
      in case typeFromAST S (variable_type varDefinition) of
           None \<Rightarrow> Inl (UnresolvableVariableType, trace)
         | Some varType \<Rightarrow>
             if \<not> isInputType S varType then Inl (UnresolvableVariableType, trace)
             else
               (case (case variables of
                        None \<Rightarrow> None
                      | Some vs \<Rightarrow> map_of vs varName) of
                  None \<Rightarrow>
                    (if variable_defaultValue varDefinition = None \<and> isNonNullType varType
                     then Inl (MissingRequiredVariable, trace)
                     else if variable_defaultValue varDefinition = None
                            \<or> variable_defaultValue varDefinition = Some NullValue
                     then Inr (insert varName nullVariableNames, trace)
                     else Inr (nullVariableNames, trace))
                | Some v \<Rightarrow>
                    (if v = JNull \<and> isNonNullType varType
                     then Inl (NullForNonNullVariable, trace)
                     else
                       (case addTraceInputValueStats S trace v varType of
                          Inl e \<Rightarrow> Inl e
                        | Inr trace' \<Rightarrow>
                            Inr ((if v = JNull then insert varName nullVariableNames
                                  else nullVariableNames), trace')))))"

fun classify_variables ::
  "schema \<Rightarrow> VariableValues option \<Rightarrow> VariableDefinition list \<Rightarrow> string set \<times> 'a Trace_scheme \<Rightarrow>
     (error \<times> 'a Trace_scheme) + (string set \<times> 'a Trace_scheme)" where
  "classify_variables S variables [] st = Inr st"
| "classify_variables S variables (varDefinition # rest) st =
     (case classify_variable S variables varDefinition st of
        Inl e \<Rightarrow> Inl e
      | Inr st' \<Rightarrow> classify_variables S variables rest st')"

subsection \<open>The document scan\<close>

text \<open>
  Modelled from the spec: \<^verbatim>\<open>separateOperations\<close>, \<^verbatim>\<open>TypeInfo\<close> and
  \<^verbatim>\<open>visit\<close> belong to the \<^verbatim>\<open>graphql\<close> package, which is not part of the
  source. What the source sees of them is the sequence of calls of its
  two visitor functions, each with the type names the traversal has resolved, and
  possibly an error that ends the traversal. A document is that sequence for each
  operation name (the empty name for an anonymous operation).
\<close>

datatype visit_event =
    ObjectField string string string value_node
  | EnumValue string string
  | VisitThrows

type_synonym document = "string \<Rightarrow> visit_event list"

fun scan_document :: "string set \<Rightarrow> 'a Trace_scheme \<Rightarrow> visit_event list \<Rightarrow> 'a outcome" where
  "scan_document nullVariableNames trace [] = Inr trace"
| "scan_document nullVariableNames trace
     (ObjectField inputObjectTypeName inputFieldName inputFieldTypeName node # rest) =
     scan_document nullVariableNames
       (inputFieldIsInRequest trace inputObjectTypeName inputFieldName inputFieldTypeName
          (node = NullValue \<or>
           (case node of Variable n \<Rightarrow> n \<in> nullVariableNames | _ \<Rightarrow> False)))
       rest"
| "scan_document nullVariableNames trace (EnumValue enumTypeName enumValueName # rest) =
     scan_document nullVariableNames (enumValueIsInRequest trace enumTypeName enumValueName) rest"
| "scan_document nullVariableNames trace (VisitThrows # rest) = Inl (TraversalError, trace)"

subsection \<open>The entry point\<close>

record Operation =
  operation_name :: "string option"
  variableDefinitions :: "VariableDefinition list option"

text \<open>The body of the \<^verbatim>\<open>try\<close> block.\<close>

definition request_stats_body ::
  "'a Trace_scheme \<Rightarrow> schema \<Rightarrow> document \<Rightarrow> Operation \<Rightarrow> VariableValues option \<Rightarrow> 'a outcome" where
  "request_stats_body trace S doc operation variables =
     (case classify_variables S variables
             (case variableDefinitions operation of None \<Rightarrow> [] | Some ds \<Rightarrow> ds)
             ({}, trace) of
        Inl e \<Rightarrow> Inl e
      | Inr st \<Rightarrow>
          scan_document (fst st) (snd st)
            (doc (case operation_name operation of None \<Rightarrow> [] | Some n \<Rightarrow> n)))"

text \<open>
  The \<^verbatim>\<open>try\<close> statement. A body that completes is the outcome; when the body
  throws, the handler runs on the trace as the body left it, and the outcome of the
  handler, which may complete or throw in its turn, is the outcome. The handler of the
  source does not look at the error.
\<close>

definition try_catch ::
  "'a outcome \<Rightarrow> ('a Trace_scheme \<Rightarrow> 'a outcome) \<Rightarrow> 'a outcome" where
  "try_catch body handler =
     (case body of
        Inr trace' \<Rightarrow> Inr trace'
      | Inl (e, trace') \<Rightarrow> handler trace')"

text \<open>
  The \<^verbatim>\<open>catch\<close> block: two assignments, which replace both mappings of the trace,
  whatever has been written to them, by empty ones. The trace is the object the plugin
  has created for the request and the body has been writing to.
\<close>

definition catch_block :: "'a Trace_scheme \<Rightarrow> 'a outcome" where
  "catch_block trace =
     Inr (trace\<lparr>perInputTypeStat := Map.empty, perEnumTypeStat := Map.empty\<rparr>)"

text \<open>
  The call of \<^verbatim>\<open>addTraceRequestStats\<close> as a computation, which completes with a
  trace or throws to its caller; and \<open>addTraceRequestStats\<close>, the trace the call
  leaves.
\<close>

definition addTraceRequestStats_outcome ::
  "'a Trace_scheme \<Rightarrow> schema \<Rightarrow> document \<Rightarrow> Operation \<Rightarrow> VariableValues option \<Rightarrow> 'a outcome"
  where
  "addTraceRequestStats_outcome trace S doc operation variables =
     try_catch (request_stats_body trace S doc operation variables) catch_block"

definition addTraceRequestStats ::
  "'a Trace_scheme \<Rightarrow> schema \<Rightarrow> document \<Rightarrow> Operation \<Rightarrow> VariableValues option \<Rightarrow> 'a Trace_scheme"
  where
  "addTraceRequestStats trace S doc operation variables =
     final_trace (addTraceRequestStats_outcome trace S doc operation variables)"

subsection \<open>Sequences of recordings\<close>

text \<open>
  A call of one of the two recording functions, with its arguments; a request makes a
  sequence of such calls on its trace.
\<close>

datatype occurrence =
    FieldOccurrence string string string bool
  | EnumOccurrence string string

fun record_occurrence :: "'a Trace_scheme \<Rightarrow> occurrence \<Rightarrow> 'a Trace_scheme" where
  "record_occurrence trace (FieldOccurrence tn fn ft isNull) =
     inputFieldIsInRequest trace tn fn ft isNull"
| "record_occurrence trace (EnumOccurrence tn vn) = enumValueIsInRequest trace tn vn"

definition record_all :: "'a Trace_scheme \<Rightarrow> occurrence list \<Rightarrow> 'a Trace_scheme" where
  "record_all trace occs = foldl record_occurrence trace occs"

text \<open>
  The relation of a trace to a later one that is reached from it by recordings alone.
\<close>

definition recorded :: "'a Trace_scheme \<Rightarrow> 'a Trace_scheme \<Rightarrow> bool" where
  "recorded trace trace' = (\<exists>occs. trace' = record_all trace occs)"

subsection \<open>A schema for the examples\<close>

text \<open>
  The built-in \<^verbatim>\<open>String\<close> scalar of the \<^verbatim>\<open>graphql\<close> package: its
  \<^verbatim>\<open>parseValue\<close> returns a string as it is and throws on any other value.
\<close>

definition string_parseValue :: "jsvalue \<Rightarrow> parse_outcome" where
  "string_parseValue v = (case v of JStr s \<Rightarrow> ParseValue | _ \<Rightarrow> ParseThrows)"

text \<open>
  The schema of scenario A, \<^verbatim>\<open>input Filter { name: String, tags: [String!] }\<close>, with
  the enum \<^verbatim>\<open>Color { RED GREEN }\<close> of scenario B.
\<close>

definition filter_fields :: "InputField list" where
  "filter_fields =
     [\<lparr>field_name = ''name'', field_type = NamedType ''String'', defaultValue = JUndefined\<rparr>,
      \<lparr>field_name = ''tags'', field_type = ListType (NonNullType (NamedType ''String'')),
       defaultValue = JUndefined\<rparr>]"

definition example_schema :: schema where
  "example_schema =
     [''Filter'' \<mapsto> InputObjectType filter_fields,
      ''String'' \<mapsto> ScalarType string_parseValue,
      ''Color'' \<mapsto> EnumType [''RED'', ''GREEN'']]"

definition empty_trace :: Trace where
  "empty_trace = \<lparr>perInputTypeStat = Map.empty, perEnumTypeStat = Map.empty\<rparr>"

text \<open>The variable value of scenario A, and an operation that declares it, \<^verbatim>\<open>query ($f: Filter)\<close>.\<close>

definition filter_value :: jsvalue where
  "filter_value = JObj [(''name'', JNull), (''tags'', JList [JStr ''x'', JStr ''y''])]"

definition filter_operation :: Operation where
  "filter_operation =
     \<lparr>operation_name = None,
      variableDefinitions =
        Some [\<lparr>variable_name = ''f'', variable_type = NamedType ''Filter'',
               variable_defaultValue = None\<rparr>]\<rparr>"

text \<open>A document whose traversal visits no object field and no enum value.\<close>

definition no_events :: document where
  "no_events = (\<lambda>n. [])"

text \<open>
  A document whose traversal visits the enum value \<^verbatim>\<open>RED\<close> of \<^verbatim>\<open>Color\<close> and then
  throws.
\<close>

definition throwing_document :: document where
  "throwing_document = (\<lambda>n. [EnumValue ''Color'' ''RED'', VisitThrows])"

section \<open>Properties\<close>

subsection \<open>The trace the entry point leaves\<close>

lemma addTraceRequestStats_cases:
  "addTraceRequestStats trace S doc operation variables =
     (case request_stats_body trace S doc operation variables of
        Inr trace' \<Rightarrow> trace'
      | Inl (e, trace') \<Rightarrow> trace'\<lparr>perInputTypeStat := Map.empty, perEnumTypeStat := Map.empty\<rparr>)"
  by (simp add: addTraceRequestStats_def addTraceRequestStats_outcome_def try_catch_def
      catch_block_def final_trace_def split: sum.splits prod.splits)

subsection \<open>The recording functions\<close>

lemma input_field_stat_record_same:
  "input_field_stat (inputFieldIsInRequest trace tn fn ft b) tn fn =
     Some ((case input_field_stat trace tn fn of Some s \<Rightarrow> s | None \<Rightarrow> new_InputFieldStat)
            \<lparr>fieldType := ft, requestCount := 1,
             requestCountNull :=
               (if b then 1
                else requestCountNull
                  (case input_field_stat trace tn fn of Some s \<Rightarrow> s | None \<Rightarrow> new_InputFieldStat))\<rparr>)"
  by (simp add: input_field_stat_def inputFieldIsInRequest_def new_InputTypeStat_def Let_def
      split: option.splits)

lemma input_field_stat_record_other:
  "tn' \<noteq> tn \<or> fn' \<noteq> fn \<Longrightarrow>
   input_field_stat (inputFieldIsInRequest trace tn fn ft b) tn' fn' = input_field_stat trace tn' fn'"
  by (auto simp: input_field_stat_def inputFieldIsInRequest_def new_InputTypeStat_def Let_def
      split: option.splits)

lemma input_field_stat_record_enum:
  "input_field_stat (enumValueIsInRequest trace tn vn) tn' fn' = input_field_stat trace tn' fn'"
  by (simp add: input_field_stat_def enumValueIsInRequest_def Let_def)

lemma enum_value_stat_record_same:
  "enum_value_stat (enumValueIsInRequest trace tn vn) tn vn =
     Some ((case enum_value_stat trace tn vn of Some s \<Rightarrow> s | None \<Rightarrow> new_EnumValueStat)
            \<lparr>enumRequestCount := 1\<rparr>)"
  by (simp add: enum_value_stat_def enumValueIsInRequest_def new_EnumTypeStat_def Let_def
      split: option.splits)

lemma enum_value_stat_record_other:
  "tn' \<noteq> tn \<or> vn' \<noteq> vn \<Longrightarrow>
   enum_value_stat (enumValueIsInRequest trace tn vn) tn' vn' = enum_value_stat trace tn' vn'"
  by (auto simp: enum_value_stat_def enumValueIsInRequest_def new_EnumTypeStat_def Let_def
      split: option.splits)

lemma enum_value_stat_record_field:
  "enum_value_stat (inputFieldIsInRequest trace tn fn ft b) tn' vn' = enum_value_stat trace tn' vn'"
  by (simp add: enum_value_stat_def inputFieldIsInRequest_def Let_def)

lemma inputFieldIsInRequest_idem:
  "inputFieldIsInRequest (inputFieldIsInRequest trace tn fn ft b) tn fn ft b =
   inputFieldIsInRequest trace tn fn ft b"
  by (simp add: inputFieldIsInRequest_def Let_def)

lemma enumValueIsInRequest_idem:
  "enumValueIsInRequest (enumValueIsInRequest trace tn vn) tn vn =
   enumValueIsInRequest trace tn vn"
  by (simp add: enumValueIsInRequest_def Let_def)

lemma record_all_snoc: "record_all trace (occs @ [x]) = record_occurrence (record_all trace occs) x"
  by (simp add: record_all_def)

lemma field_count_after:
  "FieldOccurrence tn fn ft b \<in> set occs \<Longrightarrow>
   \<exists>s. input_field_stat (record_all trace occs) tn fn = Some s \<and> requestCount s = 1"
proof (induction occs rule: rev_induct)
  case Nil
  then show ?case by simp
next
  case (snoc x occs)
  show ?case
  proof (cases x)
    case (FieldOccurrence tn' fn' ft' b')
    show ?thesis
    proof (cases "tn' = tn \<and> fn' = fn")
      case True
      with FieldOccurrence show ?thesis
        by (simp add: record_all_snoc input_field_stat_record_same)
    next
      case False
      with FieldOccurrence snoc.prems have "FieldOccurrence tn fn ft b \<in> set occs" by auto
      with snoc.IH False FieldOccurrence show ?thesis
        by (auto simp: record_all_snoc input_field_stat_record_other)
    qed
  next
    case (EnumOccurrence tn' vn')
    with snoc.prems have "FieldOccurrence tn fn ft b \<in> set occs" by auto
    with snoc.IH EnumOccurrence show ?thesis
      by (simp add: record_all_snoc input_field_stat_record_enum)
  qed
qed

lemma enum_count_after:
  "EnumOccurrence tn vn \<in> set occs \<Longrightarrow>
   \<exists>s. enum_value_stat (record_all trace occs) tn vn = Some s \<and> enumRequestCount s = 1"
proof (induction occs rule: rev_induct)
  case Nil
  then show ?case by simp
next
  case (snoc x occs)
  show ?case
  proof (cases x)
    case (EnumOccurrence tn' vn')
    show ?thesis
    proof (cases "tn' = tn \<and> vn' = vn")
      case True
      with EnumOccurrence show ?thesis
        by (simp add: record_all_snoc enum_value_stat_record_same)
    next
      case False
      with EnumOccurrence snoc.prems have "EnumOccurrence tn vn \<in> set occs" by auto
      with snoc.IH False EnumOccurrence show ?thesis
        by (auto simp: record_all_snoc enum_value_stat_record_other)
    qed
  next
    case (FieldOccurrence tn' fn' ft' b')
    with snoc.prems have "EnumOccurrence tn vn \<in> set occs" by auto
    with snoc.IH FieldOccurrence show ?thesis
      by (simp add: record_all_snoc enum_value_stat_record_field)
  qed
qed

lemma null_flag_step:
  "input_field_stat trace tn fn = Some s \<Longrightarrow> requestCountNull s = 1 \<Longrightarrow>
   \<exists>s'. input_field_stat (record_occurrence trace x) tn fn = Some s' \<and> requestCountNull s' = 1"
proof (cases x)
  case (FieldOccurrence tn' fn' ft' b')
  assume a: "input_field_stat trace tn fn = Some s" "requestCountNull s = 1"
  show ?thesis
  proof (cases "tn' = tn \<and> fn' = fn")
    case True
    with FieldOccurrence a show ?thesis by (simp add: input_field_stat_record_same)
  next
    case False
    with FieldOccurrence a show ?thesis by (auto simp: input_field_stat_record_other)
  qed
next
  case (EnumOccurrence tn' vn')
  assume "input_field_stat trace tn fn = Some s" "requestCountNull s = 1"
  with EnumOccurrence show ?thesis by (simp add: input_field_stat_record_enum)
qed

lemma null_flag_kept:
  "input_field_stat trace tn fn = Some s \<Longrightarrow> requestCountNull s = 1 \<Longrightarrow>
   \<exists>s'. input_field_stat (record_all trace occs) tn fn = Some s' \<and> requestCountNull s' = 1"
proof (induction occs rule: rev_induct)
  case Nil
  then show ?case by (simp add: record_all_def)
next
  case (snoc x occs)
  then obtain s' where "input_field_stat (record_all trace occs) tn fn = Some s'"
    "requestCountNull s' = 1" by blast
  then show ?case unfolding record_all_snoc by (rule null_flag_step)
qed


subsection \<open>Type resolution and the walker\<close>

lemma isInputType_typeFromAST: "isInputType S t \<Longrightarrow> typeFromAST S t = Some t"
  by (induction t) (auto split: option.splits)


lemma undefined_never_null_error:
  "addTraceInputValueStats S trace JUndefined t \<noteq> Inl (NullForNonNull, trace')"
  by (induction t)
    (auto simp: collection_items_def split: option.splits named_type.splits parse_outcome.splits)

text \<open>
  A property read goes through the prototype chain. Against
  \<^verbatim>\<open>input P { constructor: String }\<close> the empty record has the inherited method
  under the name of the field: the occurrence is recorded, and the scalar rejects the
  function. Against \<^verbatim>\<open>input L { length: String }\<close> the empty list has its length
  under the name of the field, with the same course.
\<close>

lemma inherited_method_is_read:
  "addTraceInputValueStats
     [''P'' \<mapsto> InputObjectType
        [\<lparr>field_name = ''constructor'', field_type = NamedType ''String'',
          defaultValue = JUndefined\<rparr>],
      ''String'' \<mapsto> ScalarType string_parseValue]
     empty_trace (JObj []) (NamedType ''P'') =
   Inl (ScalarParseError,
        inputFieldIsInRequest empty_trace ''P'' ''constructor'' ''String'' False)"
  by (simp add: get_property_def string_parseValue_def)

lemma list_length_is_read:
  "addTraceInputValueStats
     [''L'' \<mapsto> InputObjectType
        [\<lparr>field_name = ''length'', field_type = NamedType ''String'',
          defaultValue = JUndefined\<rparr>],
      ''String'' \<mapsto> ScalarType string_parseValue]
     empty_trace (JList []) (NamedType ''L'') =
   Inl (ScalarParseError, inputFieldIsInRequest empty_trace ''L'' ''length'' ''String'' False)"
  by (simp add: get_property_def string_parseValue_def)

subsection \<open>The trace is written through the recording functions only\<close>

text \<open>
  Whatever the walker, the loop over the variables, the document scan and the whole body
  of the entry point leave in the trace, on success or at an error, is the result of a
  sequence of calls of \<open>inputFieldIsInRequest\<close> and \<open>enumValueIsInRequest\<close> on the
  trace they started from.
\<close>

lemma recorded_refl: "recorded trace trace"
  unfolding recorded_def by (rule exI [of _ "[]"]) (simp add: record_all_def)

lemma recorded_trans: "recorded a b \<Longrightarrow> recorded b c \<Longrightarrow> recorded a c"
  unfolding recorded_def
proof -
  assume "\<exists>occs. b = record_all a occs" "\<exists>occs. c = record_all b occs"
  then obtain xs ys where "b = record_all a xs" "c = record_all b ys" by blast
  then have "c = record_all a (xs @ ys)" by (simp add: record_all_def)
  then show "\<exists>occs. c = record_all a occs" ..
qed

lemma recorded_field: "recorded trace (inputFieldIsInRequest trace tn fn ft b)"
  unfolding recorded_def
  by (rule exI [of _ "[FieldOccurrence tn fn ft b]"]) (simp add: record_all_def)

lemma recorded_enum: "recorded trace (enumValueIsInRequest trace tn vn)"
  unfolding recorded_def
  by (rule exI [of _ "[EnumOccurrence tn vn]"]) (simp add: record_all_def)

lemma walker_writes_are_recordings:
  "recorded trace (final_trace (addTraceInputValueStats S trace v t))"
  "recorded trace (final_trace (walk_items S trace xs t))"
  "recorded trace (final_trace (walk_fields S trace name v fs))"
proof (induction S trace v t and S trace xs t and S trace name v fs
    rule: addTraceInputValueStats_walk_items_walk_fields.induct)
  case (1 S trace inputValue ofType)
  then show ?case by (simp add: final_trace_def recorded_refl)
next
  case (2 S trace inputValue itemType)
  then show ?case
    by (cases "collection_items inputValue") (simp_all add: final_trace_def recorded_refl)
next
  case (3 S trace inputValue name)
  show ?case
  proof (cases "inputValue = JNull")
    case True
    then show ?thesis by (simp add: final_trace_def recorded_refl)
  next
    case False
    show ?thesis
    proof (cases "S name")
      case None
      with False show ?thesis by (simp add: final_trace_def recorded_refl)
    next
      case (Some d)
      show ?thesis
      proof (cases d)
        case (InputObjectType inputFields)
        show ?thesis
        proof (cases "typeof inputValue \<noteq> ''object''")
          case True
          with False Some InputObjectType show ?thesis
            by (simp add: final_trace_def recorded_refl)
        next
          case obj: False
          with 3 False Some InputObjectType
          have "recorded trace (final_trace (walk_fields S trace name inputValue inputFields))"
            by simp
          with False Some InputObjectType obj show ?thesis
            by (auto simp: final_trace_def split: sum.splits)
        qed
      next
        case (ScalarType p)
        with False Some show ?thesis
          by (simp add: final_trace_def recorded_refl split: parse_outcome.splits)
      next
        case (EnumType vs)
        with False Some show ?thesis
          by (simp add: final_trace_def recorded_refl recorded_enum split: jsvalue.splits)
      next
        case OutputType
        with False Some show ?thesis by (simp add: final_trace_def recorded_refl)
      qed
    qed
  qed
next
  case (4 S trace itemType)
  then show ?case by (simp add: final_trace_def recorded_refl)
next
  case (5 S trace itemValue rest itemType)
  show ?case
  proof (cases "addTraceInputValueStats S trace itemValue itemType")
    case (Inl e)
    with 5(1) show ?thesis by (simp add: final_trace_def)
  next
    case (Inr trace')
    with 5(1) have "recorded trace trace'" by (simp add: final_trace_def)
    moreover from 5(2) Inr have "recorded trace' (final_trace (walk_items S trace' rest itemType))"
      by simp
    ultimately show ?thesis using Inr by (simp add: recorded_trans)
  qed
next
  case (6 S trace name inputValue)
  then show ?case by (simp add: final_trace_def recorded_refl)
next
  case (7 S trace name inputValue inputField rest)
  let ?fv = "get_property inputValue (field_name inputField)"
  show ?case
  proof (cases "?fv = JUndefined")
    case True
    with 7(1) show ?thesis
      by (auto simp: final_trace_def recorded_refl)
  next
    case False
    let ?t1 = "inputFieldIsInRequest trace name (field_name inputField)
                   (type_toString (field_type inputField)) (?fv = JNull)"
    have a: "recorded trace ?t1" by (rule recorded_field)
    from 7(2) False
    have b: "recorded ?t1 (final_trace (addTraceInputValueStats S ?t1 ?fv (field_type inputField)))"
      by simp
    show ?thesis
    proof (cases "addTraceInputValueStats S ?t1 ?fv (field_type inputField)")
      case (Inl e)
      with a b False show ?thesis by (auto simp: final_trace_def intro: recorded_trans)
    next
      case (Inr trace')
      with b have "recorded ?t1 trace'" by (simp add: final_trace_def)
      with a have c: "recorded trace trace'" by (rule recorded_trans)
      from 7(3) False Inr have "recorded trace' (final_trace (walk_fields S trace' name inputValue rest))"
        by simp
      with c have "recorded trace (final_trace (walk_fields S trace' name inputValue rest))"
        by (rule recorded_trans)
      with False Inr show ?thesis by simp
    qed
  qed
qed

lemma walk_recorded_Inl:
  "addTraceInputValueStats S trace v t = Inl (e, trace') \<Longrightarrow> recorded trace trace'"
  using walker_writes_are_recordings(1) [of trace S v t] by (simp add: final_trace_def)

lemma walk_recorded_Inr:
  "addTraceInputValueStats S trace v t = Inr trace' \<Longrightarrow> recorded trace trace'"
  using walker_writes_are_recordings(1) [of trace S v t] by (simp add: final_trace_def)

lemma classify_variable_recorded:
  "recorded (snd st)
     (case classify_variable S variables d st of Inl (e, t) \<Rightarrow> t | Inr (n, t) \<Rightarrow> t)"
  by (auto simp: classify_variable_def Let_def recorded_refl
      split: option.splits sum.splits prod.splits
      dest: walk_recorded_Inl walk_recorded_Inr)

lemma classify_variables_recorded:
  "recorded (snd st)
     (case classify_variables S variables ds st of Inl (e, t) \<Rightarrow> t | Inr (n, t) \<Rightarrow> t)"
proof (induction ds arbitrary: st)
  case Nil
  show ?case by (simp add: recorded_refl split: prod.splits)
next
  case (Cons d ds)
  show ?case
  proof (cases "classify_variable S variables d st")
    case (Inl e)
    with classify_variable_recorded [of st S variables d] show ?thesis
      by (simp split: prod.splits)
  next
    case (Inr st')
    with classify_variable_recorded [of st S variables d] have "recorded (snd st) (snd st')"
      by (simp split: prod.splits)
    then show ?thesis using Cons.IH [of st'] Inr by (auto intro: recorded_trans)
  qed
qed

lemma scan_document_recorded:
  "recorded trace (final_trace (scan_document nulls trace events))"
proof (induction nulls trace events rule: scan_document.induct)
  case (1 nulls trace)
  show ?case by (simp add: final_trace_def recorded_refl)
next
  case (2 nulls trace tn fn ft node rest)
  then show ?case by (auto intro: recorded_trans recorded_field)
next
  case (3 nulls trace tn vn rest)
  then show ?case by (auto intro: recorded_trans recorded_enum)
next
  case (4 nulls trace rest)
  show ?case by (simp add: final_trace_def recorded_refl)
qed

lemma request_stats_body_recorded:
  "recorded trace (final_trace (request_stats_body trace S doc operation variables))"
proof (cases "classify_variables S variables
             (case variableDefinitions operation of None \<Rightarrow> [] | Some ds \<Rightarrow> ds) ({}, trace)")
  case (Inl e)
  with classify_variables_recorded [of "({}, trace)" S variables
      "case variableDefinitions operation of None \<Rightarrow> [] | Some ds \<Rightarrow> ds"]
  show ?thesis by (simp add: request_stats_body_def final_trace_def split: prod.splits)
next
  case (Inr st)
  with classify_variables_recorded [of "({}, trace)" S variables
      "case variableDefinitions operation of None \<Rightarrow> [] | Some ds \<Rightarrow> ds"]
  have "recorded trace (snd st)" by (simp split: prod.splits)
  then show ?thesis using Inr scan_document_recorded
    by (auto simp: request_stats_body_def intro: recorded_trans)
qed

lemma recorded_null_flag:
  "recorded trace trace' \<Longrightarrow> input_field_stat trace tn fn = Some s \<Longrightarrow> requestCountNull s = 1 \<Longrightarrow>
   \<exists>s'. input_field_stat trace' tn fn = Some s' \<and> requestCountNull s' = 1"
  unfolding recorded_def using null_flag_kept by blast

lemma record_occurrence_discard:
  "(record_occurrence trace x)\<lparr>perInputTypeStat := a, perEnumTypeStat := b\<rparr> =
   trace\<lparr>perInputTypeStat := a, perEnumTypeStat := b\<rparr>"
  by (cases x) (simp_all add: inputFieldIsInRequest_def enumValueIsInRequest_def Let_def)

lemma recorded_discard:
  "recorded trace trace' \<Longrightarrow>
   trace'\<lparr>perInputTypeStat := a, perEnumTypeStat := b\<rparr> =
   trace\<lparr>perInputTypeStat := a, perEnumTypeStat := b\<rparr>"
proof -
  have "(record_all trace occs)\<lparr>perInputTypeStat := a, perEnumTypeStat := b\<rparr> =
      trace\<lparr>perInputTypeStat := a, perEnumTypeStat := b\<rparr>" for occs
    by (induction occs rule: rev_induct)
      (simp_all add: record_all_def record_occurrence_discard)
  then show "recorded trace trace' \<Longrightarrow>
      trace'\<lparr>perInputTypeStat := a, perEnumTypeStat := b\<rparr> =
      trace\<lparr>perInputTypeStat := a, perEnumTypeStat := b\<rparr>"
    by (auto simp: recorded_def)
qed

lemma recorded_more: "recorded trace trace' \<Longrightarrow> Trace.more trace' = Trace.more trace"
proof -
  assume "recorded trace trace'"
  then have "trace'\<lparr>perInputTypeStat := Map.empty, perEnumTypeStat := Map.empty\<rparr> =
      trace\<lparr>perInputTypeStat := Map.empty, perEnumTypeStat := Map.empty\<rparr>"
    by (rule recorded_discard)
  then have "Trace.more (trace'\<lparr>perInputTypeStat := Map.empty, perEnumTypeStat := Map.empty\<rparr>) =
      Trace.more (trace\<lparr>perInputTypeStat := Map.empty, perEnumTypeStat := Map.empty\<rparr>)"
    by (rule arg_cong)
  then show ?thesis by simp
qed

section \<open>The claims\<close>

subsection \<open>C1: an error of the variable walk leaves both mappings empty\<close>

text \<open>
  C1. Whenever the loop over the declared variables raises an error (null for a
  non-null variable, a required variable omitted with no default, an unknown key of an
  input object, a scalar that fails to parse, or any other), \<open>addTraceRequestStats\<close>
  returns a trace whose \<open>perInputTypeStat\<close> and \<open>perEnumTypeStat\<close> are both empty,
  whatever the trace \<open>partial\<close> held when the error was thrown.
\<close>

theorem variable_error_leaves_summary_empty:
  assumes "classify_variables S variables
             (case variableDefinitions operation of None \<Rightarrow> [] | Some ds \<Rightarrow> ds)
             ({}, trace) = Inl (e, partial)"
  shows "perInputTypeStat (addTraceRequestStats trace S doc operation variables) = Map.empty \<and>
         perEnumTypeStat (addTraceRequestStats trace S doc operation variables) = Map.empty"
  using assms by (simp add: addTraceRequestStats_cases request_stats_body_def)

text \<open>
  A request whose variable \<^verbatim>\<open>$f: Filter\<close> is \<^verbatim>\<open>{ name: null, bogus: "z" }\<close>: the
  occurrence of \<^verbatim>\<open>Filter.name\<close> is written before the unknown key is found, and is
  gone at return.
\<close>

theorem variable_error_leaves_summary_empty_witness:
  "(\<exists>partial.
      classify_variables example_schema
        (Some [(''f'', JObj [(''name'', JNull), (''bogus'', JStr ''z'')])])
        (case variableDefinitions filter_operation of None \<Rightarrow> [] | Some ds \<Rightarrow> ds)
        ({}, empty_trace) = Inl (UnknownField, partial) \<and>
      input_field_stat partial ''Filter'' ''name'' =
        Some \<lparr>fieldType = ''String'', requestCount = 1, requestCountNull = 1\<rparr>) \<and>
   perInputTypeStat (addTraceRequestStats empty_trace example_schema no_events filter_operation
      (Some [(''f'', JObj [(''name'', JNull), (''bogus'', JStr ''z'')])])) = Map.empty \<and>
   perEnumTypeStat (addTraceRequestStats empty_trace example_schema no_events filter_operation
      (Some [(''f'', JObj [(''name'', JNull), (''bogus'', JStr ''z'')])])) = Map.empty"
proof -
  have h: "classify_variables example_schema
        (Some [(''f'', JObj [(''name'', JNull), (''bogus'', JStr ''z'')])])
        (case variableDefinitions filter_operation of None \<Rightarrow> [] | Some ds \<Rightarrow> ds)
        ({}, empty_trace) =
        Inl (UnknownField, inputFieldIsInRequest empty_trace ''Filter'' ''name'' ''String'' True)"
    by (simp add: filter_operation_def classify_variable_def example_schema_def
        filter_fields_def get_property_def object_keys_def)
  have p: "input_field_stat (inputFieldIsInRequest empty_trace ''Filter'' ''name'' ''String'' True)
        ''Filter'' ''name'' =
        Some \<lparr>fieldType = ''String'', requestCount = 1, requestCountNull = 1\<rparr>"
    by (simp add: input_field_stat_def inputFieldIsInRequest_def empty_trace_def
        new_InputTypeStat_def new_InputFieldStat_def)
  from h p variable_error_leaves_summary_empty [OF h, of no_events] show ?thesis
    by blast
qed

subsection \<open>C2: the entry point never throws\<close>

text \<open>
  C2. For every trace, schema, document, operation and variables, the call of
  \<open>addTraceRequestStats\<close> completes: it does not throw. When the body of the
  \<^verbatim>\<open>try\<close> block throws, whatever the error (those of the document traversal
  included) and whatever had been written, the call completes with the discard outcome,
  which is the trace it was given with both mappings empty. When the body completes, its
  trace is the result. In both cases every other field of the trace is as it was, so
  nothing but the two mappings tells the caller which case it was.
\<close>

theorem addTraceRequestStats_never_throws:
  "(\<exists>t. addTraceRequestStats_outcome trace S doc operation variables = Inr t) \<and>
   (\<forall>e partial.
      request_stats_body trace S doc operation variables = Inl (e, partial) \<longrightarrow>
      addTraceRequestStats_outcome trace S doc operation variables =
        Inr (trace\<lparr>perInputTypeStat := Map.empty, perEnumTypeStat := Map.empty\<rparr>)) \<and>
   (\<forall>t. request_stats_body trace S doc operation variables = Inr t \<longrightarrow>
      addTraceRequestStats_outcome trace S doc operation variables = Inr t) \<and>
   Trace.more (addTraceRequestStats trace S doc operation variables) = Trace.more trace"
proof -
  let ?body = "request_stats_body trace S doc operation variables"
  let ?call = "addTraceRequestStats_outcome trace S doc operation variables"
  have r: "recorded trace (final_trace ?body)"
    by (rule request_stats_body_recorded)
  have thrown: "?call = Inr (trace\<lparr>perInputTypeStat := Map.empty, perEnumTypeStat := Map.empty\<rparr>)"
    if "?body = Inl (e, partial)" for e partial
  proof -
    from r that have "recorded trace partial" by (simp add: final_trace_def)
    then have "partial\<lparr>perInputTypeStat := Map.empty, perEnumTypeStat := Map.empty\<rparr> =
        trace\<lparr>perInputTypeStat := Map.empty, perEnumTypeStat := Map.empty\<rparr>"
      by (rule recorded_discard)
    with that show ?thesis
      by (simp add: addTraceRequestStats_outcome_def try_catch_def catch_block_def)
  qed
  have completed: "?call = Inr t" if "?body = Inr t" for t
    using that by (simp add: addTraceRequestStats_outcome_def try_catch_def)
  have no_throw: "\<exists>t. ?call = Inr t"
  proof (cases ?body)
    case (Inl p)
    then have "?body = Inl (fst p, snd p)" by simp
    then show ?thesis using thrown by blast
  next
    case (Inr t)
    then show ?thesis using completed by blast
  qed
  have rest: "Trace.more (addTraceRequestStats trace S doc operation variables) = Trace.more trace"
  proof (cases ?body)
    case (Inl p)
    then have "?body = Inl (fst p, snd p)" by simp
    then have "?call = Inr (trace\<lparr>perInputTypeStat := Map.empty, perEnumTypeStat := Map.empty\<rparr>)"
      by (rule thrown)
    then show ?thesis by (simp add: addTraceRequestStats_def final_trace_def)
  next
    case (Inr t)
    with r have "Trace.more t = Trace.more trace"
      by (simp add: final_trace_def recorded_more)
    with Inr completed [OF Inr] show ?thesis
      by (simp add: addTraceRequestStats_def final_trace_def)
  qed
  from no_throw thrown completed rest show ?thesis by blast
qed

text \<open>
  A request on a trace that already holds \<^verbatim>\<open>Color.GREEN\<close>: the variable
  \<^verbatim>\<open>$f: Filter\<close> is walked and writes \<^verbatim>\<open>Filter.name\<close> and \<^verbatim>\<open>Filter.tags\<close>, the
  traversal records \<^verbatim>\<open>Color.RED\<close> and then throws. The call completes, and all of
  it is gone from the trace it leaves.
\<close>

theorem addTraceRequestStats_never_throws_witness:
  "(\<exists>partial.
      request_stats_body (enumValueIsInRequest empty_trace ''Color'' ''GREEN'') example_schema
        throwing_document filter_operation (Some [(''f'', filter_value)]) =
        Inl (TraversalError, partial) \<and>
      input_field_stat partial ''Filter'' ''name'' =
        Some \<lparr>fieldType = ''String'', requestCount = 1, requestCountNull = 1\<rparr> \<and>
      enum_value_stat partial ''Color'' ''RED'' = Some \<lparr>enumRequestCount = 1\<rparr> \<and>
      enum_value_stat partial ''Color'' ''GREEN'' = Some \<lparr>enumRequestCount = 1\<rparr>) \<and>
   addTraceRequestStats_outcome (enumValueIsInRequest empty_trace ''Color'' ''GREEN'')
     example_schema throwing_document filter_operation (Some [(''f'', filter_value)]) =
     Inr empty_trace"
proof -
  let ?t0 = "enumValueIsInRequest empty_trace ''Color'' ''GREEN''"
  let ?partial =
    "enumValueIsInRequest
       (inputFieldIsInRequest
          (inputFieldIsInRequest ?t0 ''Filter'' ''name'' ''String'' True)
          ''Filter'' ''tags'' ''[String!]'' False)
       ''Color'' ''RED''"
  have b: "request_stats_body ?t0 example_schema throwing_document filter_operation
      (Some [(''f'', filter_value)]) = Inl (TraversalError, ?partial)"
    by (simp add: request_stats_body_def classify_variable_def filter_operation_def
        filter_value_def throwing_document_def example_schema_def filter_fields_def
        get_property_def object_keys_def collection_items_def string_parseValue_def)
  have p: "input_field_stat ?partial ''Filter'' ''name'' =
        Some \<lparr>fieldType = ''String'', requestCount = 1, requestCountNull = 1\<rparr>"
    "enum_value_stat ?partial ''Color'' ''RED'' = Some \<lparr>enumRequestCount = 1\<rparr>"
    "enum_value_stat ?partial ''Color'' ''GREEN'' = Some \<lparr>enumRequestCount = 1\<rparr>"
    by (simp_all add: input_field_stat_def enum_value_stat_def inputFieldIsInRequest_def
        enumValueIsInRequest_def empty_trace_def new_InputTypeStat_def new_InputFieldStat_def
        new_EnumTypeStat_def new_EnumValueStat_def)
  have d: "?t0\<lparr>perInputTypeStat := Map.empty, perEnumTypeStat := Map.empty\<rparr> = empty_trace"
    by (simp add: enumValueIsInRequest_def empty_trace_def)
  from addTraceRequestStats_never_throws [of ?t0 example_schema throwing_document
      filter_operation "Some [(''f'', filter_value)]"] b d
  have "addTraceRequestStats_outcome ?t0 example_schema throwing_document filter_operation
      (Some [(''f'', filter_value)]) = Inr empty_trace"
    by simp
  with b p show ?thesis by blast
qed

subsection \<open>C3: a non-collection value against a list type\<close>



subsection \<open>C4: scenario A\<close>

text \<open>
  C4. With \<^verbatim>\<open>input Filter { name: String, tags: [String!] }\<close>, walking the value
  \<^verbatim>\<open>{ name: null, tags: ["x","y"] }\<close> against \<^verbatim>\<open>Filter\<close> from the empty trace
  succeeds, and the trace then has, under \<^verbatim>\<open>Filter\<close>, the entry
  \<^verbatim>\<open>{ fieldType: "String", requestCount: 1, requestCountNull: 1 }\<close> for
  \<^verbatim>\<open>name\<close> and \<^verbatim>\<open>{ fieldType: "[String!]", requestCount: 1, requestCountNull: 0 }\<close>
  for \<^verbatim>\<open>tags\<close>. The entry point returns the same two entries for the request
  \<^verbatim>\<open>query ($f: Filter)\<close> with that value for \<^verbatim>\<open>$f\<close>.
\<close>

theorem scenario_A_filter:
  "(\<exists>t. addTraceInputValueStats example_schema empty_trace filter_value (NamedType ''Filter'')
          = Inr t \<and>
        input_field_stat t ''Filter'' ''name'' =
          Some \<lparr>fieldType = ''String'', requestCount = 1, requestCountNull = 1\<rparr> \<and>
        input_field_stat t ''Filter'' ''tags'' =
          Some \<lparr>fieldType = ''[String!]'', requestCount = 1, requestCountNull = 0\<rparr>) \<and>
   input_field_stat
     (addTraceRequestStats empty_trace example_schema no_events filter_operation
        (Some [(''f'', filter_value)])) ''Filter'' ''name'' =
     Some \<lparr>fieldType = ''String'', requestCount = 1, requestCountNull = 1\<rparr> \<and>
   input_field_stat
     (addTraceRequestStats empty_trace example_schema no_events filter_operation
        (Some [(''f'', filter_value)])) ''Filter'' ''tags'' =
     Some \<lparr>fieldType = ''[String!]'', requestCount = 1, requestCountNull = 0\<rparr>"
  by (simp add: example_schema_def filter_fields_def empty_trace_def get_property_def
      filter_value_def filter_operation_def no_events_def inputFieldIsInRequest_def
      input_field_stat_def collection_items_def string_parseValue_def object_keys_def
      new_InputTypeStat_def new_InputFieldStat_def addTraceRequestStats_cases
      request_stats_body_def classify_variable_def)

subsection \<open>C5: the non-null wrapper\<close>

text \<open>
  C5. For every value \<open>v\<close> and type \<open>T\<close>, walking \<open>v\<close> against \<open>NonNull(T)\<close>
  fails with \<open>NullForNonNull\<close>, the trace untouched, when \<open>v\<close> is null; otherwise
  it is the walk of \<open>v\<close> against \<open>T\<close>: the same outcome and the same trace.
\<close>

theorem non_null_wrapper_walk:
  "addTraceInputValueStats S trace v (NonNullType t) =
     (if v = JNull then Inl (NullForNonNull, trace)
      else addTraceInputValueStats S trace v t)"
  by simp

theorem non_null_wrapper_walk_witness:
  "addTraceInputValueStats example_schema empty_trace JNull (NonNullType (NamedType ''Filter''))
     = Inl (NullForNonNull, empty_trace) \<and>
   addTraceInputValueStats example_schema empty_trace filter_value
     (NonNullType (NamedType ''Filter'')) =
   addTraceInputValueStats example_schema empty_trace filter_value (NamedType ''Filter'')"
  using non_null_wrapper_walk [of example_schema empty_trace JNull "NamedType ''Filter''"]
    non_null_wrapper_walk [of example_schema empty_trace filter_value "NamedType ''Filter''"]
  by (simp add: filter_value_def)

subsection \<open>C6: recording is idempotent\<close>

text \<open>
  C6. Recording the same (input-object type, field) occurrence a second time changes
  nothing, and likewise for an (enum type, value) occurrence. After any sequence of
  recordings that has at least one for the pair, whatever the trace was before and
  whatever else the sequence records, the \<open>requestCount\<close> of the pair is 1.
\<close>

theorem recording_is_idempotent:
  "inputFieldIsInRequest (inputFieldIsInRequest trace tn fn ft b) tn fn ft b =
     inputFieldIsInRequest trace tn fn ft b \<and>
   enumValueIsInRequest (enumValueIsInRequest trace en vn) en vn =
     enumValueIsInRequest trace en vn \<and>
   (FieldOccurrence tn fn ft b \<in> set occs \<longrightarrow>
      (\<exists>s. input_field_stat (record_all trace occs) tn fn = Some s \<and> requestCount s = 1)) \<and>
   (EnumOccurrence en vn \<in> set occs \<longrightarrow>
      (\<exists>s. enum_value_stat (record_all trace occs) en vn = Some s \<and> enumRequestCount s = 1))"
proof (intro conjI impI)
  show "inputFieldIsInRequest (inputFieldIsInRequest trace tn fn ft b) tn fn ft b =
     inputFieldIsInRequest trace tn fn ft b"
    by (rule inputFieldIsInRequest_idem)
  show "enumValueIsInRequest (enumValueIsInRequest trace en vn) en vn =
     enumValueIsInRequest trace en vn"
    by (rule enumValueIsInRequest_idem)
next
  assume "FieldOccurrence tn fn ft b \<in> set occs"
  then show "\<exists>s. input_field_stat (record_all trace occs) tn fn = Some s \<and> requestCount s = 1"
    by (rule field_count_after)
next
  assume "EnumOccurrence en vn \<in> set occs"
  then show "\<exists>s. enum_value_stat (record_all trace occs) en vn = Some s \<and> enumRequestCount s = 1"
    by (rule enum_count_after)
qed

text \<open>
  \<^verbatim>\<open>Filter.name\<close> recorded twice, once null and once not, and \<^verbatim>\<open>Color.RED\<close>
  recorded twice.
\<close>

theorem recording_is_idempotent_witness:
  "(\<exists>s. input_field_stat
          (record_all empty_trace
             [FieldOccurrence ''Filter'' ''name'' ''String'' True,
              EnumOccurrence ''Color'' ''RED'',
              FieldOccurrence ''Filter'' ''name'' ''String'' False,
              EnumOccurrence ''Color'' ''RED'']) ''Filter'' ''name'' = Some s \<and>
        requestCount s = 1) \<and>
   (\<exists>s. enum_value_stat
          (record_all empty_trace
             [FieldOccurrence ''Filter'' ''name'' ''String'' True,
              EnumOccurrence ''Color'' ''RED'',
              FieldOccurrence ''Filter'' ''name'' ''String'' False,
              EnumOccurrence ''Color'' ''RED'']) ''Color'' ''RED'' = Some s \<and>
        enumRequestCount s = 1)"
  using recording_is_idempotent [of empty_trace "''Filter''" "''name''" "''String''" True
      "''Color''" "''RED''"
      "[FieldOccurrence ''Filter'' ''name'' ''String'' True,
        EnumOccurrence ''Color'' ''RED'',
        FieldOccurrence ''Filter'' ''name'' ''String'' False,
        EnumOccurrence ''Color'' ''RED'']"]
  by simp

subsection \<open>C7: a value that is not an object against an input-object type\<close>

text \<open>
  C7, as the source has it. The test is \<^verbatim>\<open>typeof inputValue !== 'object'\<close>, after
  the null test. For every value whose \<^verbatim>\<open>typeof\<close> is not \<^verbatim>\<open>'object'\<close> (a
  string, a number, a boolean, \<^verbatim>\<open>undefined\<close>), walking it against an input-object
  type fails with \<open>NotAnObject\<close>, the trace untouched. A list is not rejected by the
  test: the walk goes on as it does for a record, to the loop over the declared fields,
  which are read from the list, and then to the check of the keys of the list, its
  indices, against the declared fields. Null is accepted before the test, with no write.
\<close>

theorem non_object_value_rejected:
  assumes "S name = Some (InputObjectType inputFields)"
  shows "(typeof v \<noteq> ''object'' \<longrightarrow>
            addTraceInputValueStats S trace v (NamedType name) = Inl (NotAnObject, trace)) \<and>
         addTraceInputValueStats S trace (JList xs) (NamedType name) =
           (case walk_fields S trace name (JList xs) inputFields of
              Inl e \<Rightarrow> Inl e
            | Inr trace' \<Rightarrow>
                if list_all (\<lambda>fieldName. fieldName \<in> set (map field_name inputFields))
                     (object_keys (JList xs))
                then Inr trace'
                else Inl (UnknownField, trace')) \<and>
         addTraceInputValueStats S trace JNull (NamedType name) = Inr trace"
  using assms by auto

text \<open>
  A string, a number and a boolean against \<^verbatim>\<open>Filter\<close>; and the list
  \<^verbatim>\<open>["x"]\<close>, which is read as a record and fails on its key \<^verbatim>\<open>0\<close>.
\<close>

theorem non_object_value_rejected_witness:
  "addTraceInputValueStats example_schema empty_trace (JStr ''x'') (NamedType ''Filter'') =
     Inl (NotAnObject, empty_trace) \<and>
   addTraceInputValueStats example_schema empty_trace (JNum 3) (NamedType ''Filter'') =
     Inl (NotAnObject, empty_trace) \<and>
   addTraceInputValueStats example_schema empty_trace (JBool True) (NamedType ''Filter'') =
     Inl (NotAnObject, empty_trace) \<and>
   addTraceInputValueStats example_schema empty_trace (JList [JStr ''x'']) (NamedType ''Filter'') =
     Inl (UnknownField, empty_trace)"
proof -
  have s: "example_schema ''Filter'' = Some (InputObjectType filter_fields)"
    by (simp add: example_schema_def)
  have t: "typeof (JStr ''x'') \<noteq> ''object''" "typeof (JNum 3) \<noteq> ''object''"
    "typeof (JBool True) \<noteq> ''object''"
    by simp_all
  have w: "walk_fields example_schema empty_trace ''Filter'' (JList [JStr ''x'']) filter_fields =
      Inr empty_trace"
    by (simp add: filter_fields_def get_property_def decimal.simps)
  have k: "\<not> list_all (\<lambda>fieldName. fieldName \<in> set (map field_name filter_fields))
      (object_keys (JList [JStr ''x'']))"
    by (simp add: filter_fields_def object_keys_def decimal.simps)
  from t w k
    non_object_value_rejected [where S = example_schema and name = "''Filter''", OF s,
      of "JStr ''x''" empty_trace "[JStr ''x'']"]
    non_object_value_rejected [where S = example_schema and name = "''Filter''", OF s,
      of "JNum 3" empty_trace "[]"]
    non_object_value_rejected [where S = example_schema and name = "''Filter''", OF s,
      of "JBool True" empty_trace "[]"]
  show ?thesis by simp
qed

text \<open>
  A list is not a keyed record, and its \<^verbatim>\<open>typeof\<close> is \<^verbatim>\<open>'object'\<close>: it passes the
  test. Against \<^verbatim>\<open>Filter\<close> the empty list is accepted, and the list
  \<^verbatim>\<open>["x"]\<close> fails with \<open>UnknownField\<close>, not with \<open>NotAnObject\<close>. Null is
  accepted before the kind of the type is looked at.
\<close>

theorem list_passes_object_test_counterexample:
  "typeof (JList []) = ''object'' \<and>
   addTraceInputValueStats example_schema empty_trace (JList []) (NamedType ''Filter'') =
     Inr empty_trace \<and>
   addTraceInputValueStats example_schema empty_trace (JList [JStr ''x'']) (NamedType ''Filter'') =
     Inl (UnknownField, empty_trace) \<and>
   addTraceInputValueStats example_schema empty_trace JNull (NamedType ''Filter'') =
     Inr empty_trace"
  by (simp add: example_schema_def filter_fields_def get_property_def object_keys_def
      decimal.simps)

subsection \<open>C8: a declared variable with no provided value\<close>

text \<open>
  C8. The loop resolves the declared type of a variable to an input type of the schema
  before it looks at the provided values. For every declared variable, its type so
  resolved, that has no entry in the provided-values record (or when no record is
  provided): the turn of the loop fails with \<open>MissingRequiredVariable\<close> exactly when
  the declared type is non-null and there is no default literal; otherwise it succeeds,
  the variable name is added to the null set exactly when there is no default or the
  default is a null literal, and the trace is returned as it was: the walker is not
  called for that variable.
\<close>

theorem absent_variable_classification:
  assumes "isInputType S (variable_type d)"
    and "variables = None \<or> (\<exists>vs. variables = Some vs \<and> variable_name d \<notin> fst ` set vs)"
  shows "classify_variable S variables d (nulls, trace) =
     (if variable_defaultValue d = None \<and> isNonNullType (variable_type d)
      then Inl (MissingRequiredVariable, trace)
      else Inr ((if variable_defaultValue d = None \<or> variable_defaultValue d = Some NullValue
                 then insert (variable_name d) nulls else nulls), trace))"
proof -
  from assms(1) have r: "typeFromAST S (variable_type d) = Some (variable_type d)"
    by (rule isInputType_typeFromAST)
  from assms(2)
  have a: "(case variables of None \<Rightarrow> None | Some vs \<Rightarrow> map_of vs (variable_name d)) = None"
    by (auto simp: map_of_eq_None_iff)
  show ?thesis
    unfolding classify_variable_def by (simp add: r a assms(1) Let_def)
qed

text \<open>
  \<^verbatim>\<open>$s: String\<close> with no default joins the null set; with a default that is not
  null it does not; \<^verbatim>\<open>$s: String!\<close> with no default is the error.
\<close>

theorem absent_variable_classification_witness:
  "classify_variable example_schema (Some [])
     \<lparr>variable_name = ''s'', variable_type = NamedType ''String'',
      variable_defaultValue = None\<rparr> ({}, empty_trace) = Inr ({''s''}, empty_trace) \<and>
   classify_variable example_schema (Some [])
     \<lparr>variable_name = ''s'', variable_type = NamedType ''String'',
      variable_defaultValue = Some OtherValue\<rparr> ({}, empty_trace) = Inr ({}, empty_trace) \<and>
   classify_variable example_schema None
     \<lparr>variable_name = ''s'', variable_type = NonNullType (NamedType ''String''),
      variable_defaultValue = None\<rparr> ({}, empty_trace) =
     Inl (MissingRequiredVariable, empty_trace)"
proof -
  have i: "isInputType example_schema (NamedType ''String'')"
    "isInputType example_schema (NonNullType (NamedType ''String''))"
    by (simp_all add: example_schema_def)
  show ?thesis
    using
      absent_variable_classification [of example_schema
        "\<lparr>variable_name = ''s'', variable_type = NamedType ''String'',
          variable_defaultValue = None\<rparr>" "Some []" "{}" empty_trace]
      absent_variable_classification [of example_schema
        "\<lparr>variable_name = ''s'', variable_type = NamedType ''String'',
          variable_defaultValue = Some OtherValue\<rparr>" "Some []" "{}" empty_trace]
      absent_variable_classification [of example_schema
        "\<lparr>variable_name = ''s'', variable_type = NonNullType (NamedType ''String''),
          variable_defaultValue = None\<rparr>" None "{}" empty_trace]
      i
    by simp
qed

subsection \<open>C9: the null flag is never reset\<close>

text \<open>
  C9. Once a null occurrence of an (input-object type, field) pair is recorded, the
  \<open>requestCountNull\<close> of the pair is 1 after any further sequence of recordings, a
  non-null occurrence of the same pair included. On a trace where the flag of the pair
  is 1, a single non-null recording of the pair leaves it at 1, and so does any later
  walk of a variable value, whether it succeeds or throws.
\<close>

theorem null_flag_never_reset:
  "(\<exists>s. input_field_stat (record_all (inputFieldIsInRequest trace tn fn ft True) occs) tn fn
          = Some s \<and> requestCountNull s = 1) \<and>
   (input_field_stat trace tn fn = Some s0 \<and> requestCountNull s0 = 1 \<longrightarrow>
      (\<exists>s. input_field_stat (inputFieldIsInRequest trace tn fn ft' False) tn fn = Some s \<and>
           requestCountNull s = 1) \<and>
      (\<exists>s. input_field_stat (final_trace (addTraceInputValueStats S trace v t)) tn fn = Some s \<and>
           requestCountNull s = 1))"
proof (intro conjI impI)
  have "\<exists>s. input_field_stat (inputFieldIsInRequest trace tn fn ft True) tn fn = Some s \<and>
           requestCountNull s = 1"
    by (simp add: input_field_stat_record_same)
  then obtain s where "input_field_stat (inputFieldIsInRequest trace tn fn ft True) tn fn = Some s"
    "requestCountNull s = 1" by blast
  then show "\<exists>s. input_field_stat (record_all (inputFieldIsInRequest trace tn fn ft True) occs)
      tn fn = Some s \<and> requestCountNull s = 1"
    by (rule null_flag_kept)
next
  assume "input_field_stat trace tn fn = Some s0 \<and> requestCountNull s0 = 1"
  then show "\<exists>s. input_field_stat (inputFieldIsInRequest trace tn fn ft' False) tn fn = Some s \<and>
           requestCountNull s = 1"
    by (simp add: input_field_stat_record_same)
next
  assume a: "input_field_stat trace tn fn = Some s0 \<and> requestCountNull s0 = 1"
  have "recorded trace (final_trace (addTraceInputValueStats S trace v t))"
    by (rule walker_writes_are_recordings)
  with a show "\<exists>s. input_field_stat (final_trace (addTraceInputValueStats S trace v t)) tn fn
      = Some s \<and> requestCountNull s = 1"
    by (blast intro: recorded_null_flag)
qed

text \<open>
  \<^verbatim>\<open>Filter.name\<close> recorded null; then recorded again not null, directly and by the
  walk of \<^verbatim>\<open>{ name: "a" }\<close> against \<^verbatim>\<open>Filter\<close>.
\<close>

theorem null_flag_never_reset_witness:
  "input_field_stat (inputFieldIsInRequest empty_trace ''Filter'' ''name'' ''String'' True)
     ''Filter'' ''name'' =
     Some \<lparr>fieldType = ''String'', requestCount = 1, requestCountNull = 1\<rparr> \<and>
   input_field_stat
     (inputFieldIsInRequest
        (inputFieldIsInRequest empty_trace ''Filter'' ''name'' ''String'' True)
        ''Filter'' ''name'' ''String'' False) ''Filter'' ''name'' =
     Some \<lparr>fieldType = ''String'', requestCount = 1, requestCountNull = 1\<rparr> \<and>
   input_field_stat
     (final_trace
        (addTraceInputValueStats example_schema
           (inputFieldIsInRequest empty_trace ''Filter'' ''name'' ''String'' True)
           (JObj [(''name'', JStr ''a'')]) (NamedType ''Filter''))) ''Filter'' ''name'' =
     Some \<lparr>fieldType = ''String'', requestCount = 1, requestCountNull = 1\<rparr>"
proof -
  let ?t = "inputFieldIsInRequest empty_trace ''Filter'' ''name'' ''String'' True"
  let ?s = "\<lparr>fieldType = ''String'', requestCount = 1, requestCountNull = 1\<rparr>"
  have h: "input_field_stat ?t ''Filter'' ''name'' = Some ?s \<and> requestCountNull ?s = 1"
    by (simp add: input_field_stat_def inputFieldIsInRequest_def empty_trace_def
        new_InputTypeStat_def new_InputFieldStat_def)
  have r: "input_field_stat (inputFieldIsInRequest ?t ''Filter'' ''name'' ''String'' False)
      ''Filter'' ''name'' =
      Some \<lparr>fieldType = ''String'', requestCount = 1,
            requestCountNull = requestCountNull
              (the (input_field_stat (inputFieldIsInRequest ?t ''Filter'' ''name'' ''String'' False)
                ''Filter'' ''name''))\<rparr>"
    by (simp add: input_field_stat_def inputFieldIsInRequest_def empty_trace_def
        new_InputTypeStat_def new_InputFieldStat_def)
  have w: "addTraceInputValueStats example_schema ?t (JObj [(''name'', JStr ''a'')])
      (NamedType ''Filter'') =
      Inr (inputFieldIsInRequest ?t ''Filter'' ''name'' ''String'' False)"
    by (simp add: example_schema_def filter_fields_def get_property_def object_keys_def
        string_parseValue_def)
  from null_flag_never_reset [of
      "inputFieldIsInRequest empty_trace ''Filter'' ''name'' ''String'' True"
      "''Filter''" "''name''" "''String''" "[]"
      "\<lparr>fieldType = ''String'', requestCount = 1, requestCountNull = 1\<rparr>"
      "''String''" example_schema "JObj [(''name'', JStr ''a'')]" "NamedType ''Filter''"] h
  have "\<exists>s. input_field_stat (inputFieldIsInRequest ?t ''Filter'' ''name'' ''String'' False)
      ''Filter'' ''name'' = Some s \<and> requestCountNull s = 1"
    by blast
  with r have "input_field_stat (inputFieldIsInRequest ?t ''Filter'' ''name'' ''String'' False)
      ''Filter'' ''name'' = Some ?s"
    by auto
  with h w show ?thesis by (simp add: final_trace_def)
qed

subsection \<open>C10: undefined is not null\<close>

text \<open>
  C10, as the source has it. The null tests of the walker compare with null only.
  An undefined value passes the non-null wrapper and is walked against the inner type,
  also as an element of a provided list, and no walk of an undefined value fails with
  \<open>NullForNonNull\<close>. An input-object field whose value is undefined is treated as
  omitted: the loop goes on to the next field with the trace as it was, so no occurrence
  is recorded for it (in particular none with the null flag), or fails with
  \<open>MissingRequiredField\<close> when the field is non-null and has no default.
\<close>

theorem undefined_is_not_null:
  "addTraceInputValueStats S trace JUndefined (NonNullType t) =
     addTraceInputValueStats S trace JUndefined t \<and>
   addTraceInputValueStats S trace (JList (JUndefined # xs)) (ListType (NonNullType t)) =
     (case addTraceInputValueStats S trace JUndefined t of
        Inl e \<Rightarrow> Inl e
      | Inr trace' \<Rightarrow> walk_items S trace' xs (NonNullType t)) \<and>
   addTraceInputValueStats S trace JUndefined t \<noteq> Inl (NullForNonNull, trace') \<and>
   (get_property v (field_name inputField) = JUndefined \<longrightarrow>
      walk_fields S trace name v (inputField # rest) =
        (if defaultValue inputField = JUndefined \<and> isNonNullType (field_type inputField)
         then Inl (MissingRequiredField, trace)
         else walk_fields S trace name v rest))"
  by (simp add: collection_items_def undefined_never_null_error)

text \<open>
  \<^verbatim>\<open>undefined\<close> against \<^verbatim>\<open>String!\<close> reaches the scalar, whose parser rejects it;
  \<^verbatim>\<open>{ name: undefined }\<close> against the fields of \<^verbatim>\<open>Filter\<close> writes nothing.
\<close>

theorem undefined_is_not_null_witness:
  "addTraceInputValueStats example_schema empty_trace JUndefined
     (NonNullType (NamedType ''String'')) = Inl (ScalarParseError, empty_trace) \<and>
   walk_fields example_schema empty_trace ''Filter'' (JObj [(''name'', JUndefined)])
     filter_fields = Inr empty_trace"
proof -
  have g: "get_property (JObj [(''name'', JUndefined)]) (field_name (hd filter_fields)) = JUndefined"
    by (simp add: filter_fields_def get_property_def)
  have f: "filter_fields = hd filter_fields # tl filter_fields"
    by (simp add: filter_fields_def)
  have r: "walk_fields example_schema empty_trace ''Filter'' (JObj [(''name'', JUndefined)])
      (tl filter_fields) = Inr empty_trace"
    by (simp add: filter_fields_def get_property_def)
  have d: "\<not> isNonNullType (field_type (hd filter_fields))"
    by (simp add: filter_fields_def)
  have s: "addTraceInputValueStats example_schema empty_trace JUndefined (NamedType ''String'')
      = Inl (ScalarParseError, empty_trace)"
    by (simp add: example_schema_def string_parseValue_def)
  from undefined_is_not_null [of example_schema empty_trace "NamedType ''String''" "[]"
      empty_trace "JObj [(''name'', JUndefined)]" "hd filter_fields" "''Filter''"
      "tl filter_fields"] g r d s
  have "addTraceInputValueStats example_schema empty_trace JUndefined
     (NonNullType (NamedType ''String'')) = Inl (ScalarParseError, empty_trace)"
    and "walk_fields example_schema empty_trace ''Filter'' (JObj [(''name'', JUndefined)])
     (hd filter_fields # tl filter_fields) = Inr empty_trace"
    by simp_all
  with f show ?thesis by simp
qed

text \<open>
  The claim as it is written has the undefined field value recorded with the null flag
  off. Nothing is recorded: walking \<^verbatim>\<open>{ name: undefined }\<close> against \<^verbatim>\<open>Filter\<close>
  succeeds and leaves the trace empty, with no entry for \<^verbatim>\<open>Filter.name\<close>.
\<close>

theorem undefined_field_not_recorded_counterexample:
  "addTraceInputValueStats example_schema empty_trace (JObj [(''name'', JUndefined)])
     (NamedType ''Filter'') = Inr empty_trace \<and>
   input_field_stat empty_trace ''Filter'' ''name'' = None"
  by (simp add: example_schema_def filter_fields_def get_property_def object_keys_def
      input_field_stat_def empty_trace_def)

end
